theory Spec2Isabelle
  imports Complex_Main "HOL-Library.Multiset"
begin

section \<open>Glicko-2 player: embedding of \<open>glicko2.py\<close>\<close>

text \<open>
  Python floats are modelled as the real numbers: every arithmetic operation is the exact
  one, and the only failures kept are the ones that exist in exact arithmetic (division
  by zero, \<open>math.log\<close> and \<open>math.sqrt\<close> outside their domain, an index out of range).
  Rounding, overflow and NaN are outside this model.
\<close>

subsection \<open>Errors and the partial operations of Python\<close>

datatype py_error = ZeroDivisionError | ValueError | IndexError

type_synonym 'a result = "py_error + 'a"

definition result_bind :: "'a result \<Rightarrow> ('a \<Rightarrow> 'b result) \<Rightarrow> 'b result" where
  "result_bind r k = (case r of Inl e \<Rightarrow> Inl e | Inr x \<Rightarrow> k x)"

definition py_div :: "real \<Rightarrow> real \<Rightarrow> real result" where
  "py_div x y = (if y = 0 then Inl ZeroDivisionError else Inr (x / y))"

definition py_log :: "real \<Rightarrow> real result" where
  "py_log x = (if x \<le> 0 then Inl ValueError else Inr (ln x))"

definition py_sqrt :: "real \<Rightarrow> real result" where
  "py_sqrt x = (if x < 0 then Inl ValueError else Inr (sqrt x))"

definition getitem :: "'a list \<Rightarrow> nat \<Rightarrow> 'a result" where
  "getitem xs i = (if i < length xs then Inr (xs ! i) else Inl IndexError)"

subsection \<open>Scale conversion\<close>

definition SCALE :: real where
  "SCALE = 1737178 / 10000"

definition rating_to_mu :: "real \<Rightarrow> real" where
  "rating_to_mu rating = (rating - 1500) / SCALE"

definition mu_to_rating :: "real \<Rightarrow> real" where
  "mu_to_rating m = (m * SCALE) + 1500"

definition rd_to_phi :: "real \<Rightarrow> real" where
  "rd_to_phi rd = rd / SCALE"

definition phi_to_rd :: "real \<Rightarrow> real" where
  "phi_to_rd ph = ph * SCALE"

subsection \<open>The player\<close>

record Player =
  mu :: real
  phi :: real
  vol :: real

text \<open>The class attribute \<open>_tau\<close>.\<close>

definition Player_tau :: real where
  "Player_tau = 1 / 2"

definition getRating :: "Player \<Rightarrow> real" where
  "getRating p = mu_to_rating (mu p)"

definition setRating :: "Player \<Rightarrow> real \<Rightarrow> Player" where
  "setRating p rating = p\<lparr>mu := rating_to_mu rating\<rparr>"

definition getRd :: "Player \<Rightarrow> real" where
  "getRd p = phi_to_rd (phi p)"

definition setRd :: "Player \<Rightarrow> real \<Rightarrow> Player" where
  "setRd p rd = p\<lparr>phi := rd_to_phi rd\<rparr>"

text \<open>\<open>__init__\<close>: the three assignments, the first two through the property setters.\<close>

definition Player_init :: "real \<Rightarrow> real \<Rightarrow> real \<Rightarrow> Player" where
  "Player_init rating rd v =
     \<lparr>mu = rating_to_mu rating, phi = rd_to_phi rd, vol = v\<rparr>"

text \<open>The constructor's defaults: \<open>rating=1500, rd=350, vol=0.06\<close>.\<close>

definition Player_default :: Player where
  "Player_default = Player_init 1500 350 (6 / 100)"

text \<open>
  \<open>_preRatingRD\<close>: the argument of \<open>math.sqrt\<close> is a sum of two squares, so the call
  cannot raise.
\<close>

definition Player_preRatingRD :: "Player \<Rightarrow> Player" where
  "Player_preRatingRD p = p\<lparr>phi := sqrt ((phi p)\<^sup>2 + (vol p)\<^sup>2)\<rparr>"

definition did_not_compete :: "Player \<Rightarrow> Player" where
  "did_not_compete p = Player_preRatingRD p"

text \<open>
  \<open>_g\<close> and \<open>_E\<close>: the radicand is at least 1 and the denominator of \<open>_E\<close> is greater
  than 1 (lemmas \<open>g_radicand_ge_1\<close> and \<open>E_denominator_gt_1\<close> below), so neither raises.
\<close>

definition Player_g :: "real \<Rightarrow> real" where
  "Player_g RD = 1 / sqrt (1 + 3 * RD\<^sup>2 / pi\<^sup>2)"

definition Player_E :: "Player \<Rightarrow> real \<Rightarrow> real \<Rightarrow> real" where
  "Player_E p p2mu p2phi = 1 / (1 + exp (- 1 * Player_g p2phi * (mu p - p2mu)))"

text \<open>\<open>win_prob\<close> reads \<open>self\<close> and \<open>other\<close> and assigns to neither: it is a function
  of the two players to a number.\<close>

definition win_prob :: "Player \<Rightarrow> Player \<Rightarrow> real" where
  "win_prob self other =
     1 / (1 + exp (- 1 * Player_g (sqrt ((phi self)\<^sup>2 + (phi other)\<^sup>2)) * (mu self - mu other)))"

subsection \<open>The period aggregates\<close>

text \<open>
  The loop of \<open>_v\<close> over \<open>range(len(rating_list))\<close>, as a recursion over the indices
  still to visit; \<open>RD_list[i]\<close> raises when \<open>RD_list\<close> is the shorter list.
\<close>

fun v_loop :: "Player \<Rightarrow> real list \<Rightarrow> real list \<Rightarrow> nat list \<Rightarrow> real \<Rightarrow> real result" where
  "v_loop p rating_list RD_list [] tempSum = Inr tempSum"
| "v_loop p rating_list RD_list (i # idx) tempSum =
     result_bind (getitem rating_list i) (\<lambda>r.
     result_bind (getitem RD_list i) (\<lambda>rd.
       let tempE = Player_E p r rd
       in v_loop p rating_list RD_list idx (tempSum + (Player_g rd)\<^sup>2 * tempE * (1 - tempE))))"

definition Player_v :: "Player \<Rightarrow> real list \<Rightarrow> real list \<Rightarrow> real result" where
  "Player_v p rating_list RD_list =
     result_bind (v_loop p rating_list RD_list [0..<length rating_list] 0) (\<lambda>tempSum.
       py_div 1 tempSum)"

text \<open>
  The loop that \<open>_delta\<close> and the last step of \<open>update_player\<close> both run:
  \<open>tempSum += self._g(RD_list[i]) * (outcome_list[i] - self._E(rating_list[i], RD_list[i]))\<close>.
\<close>

fun score_loop ::
  "Player \<Rightarrow> real list \<Rightarrow> real list \<Rightarrow> real list \<Rightarrow> nat list \<Rightarrow> real \<Rightarrow> real result" where
  "score_loop p rating_list RD_list outcome_list [] tempSum = Inr tempSum"
| "score_loop p rating_list RD_list outcome_list (i # idx) tempSum =
     result_bind (getitem RD_list i) (\<lambda>rd.
     result_bind (getitem outcome_list i) (\<lambda>s.
     result_bind (getitem rating_list i) (\<lambda>r.
       score_loop p rating_list RD_list outcome_list idx
         (tempSum + Player_g rd * (s - Player_E p r rd)))))"

definition Player_delta ::
  "Player \<Rightarrow> real list \<Rightarrow> real list \<Rightarrow> real list \<Rightarrow> real \<Rightarrow> real result" where
  "Player_delta p rating_list RD_list outcome_list v =
     result_bind (score_loop p rating_list RD_list outcome_list [0..<length rating_list] 0)
       (\<lambda>tempSum. Inr (v * tempSum))"

subsection \<open>The volatility solver\<close>

text \<open>
  \<open>_f\<close>: \<open>num1 = ex * (delta**2 - self.mu**2 - v - ex)\<close>,
  \<open>denom1 = 2 * ((self.mu**2 + v + ex) ** 2)\<close>, and the result is
  \<open>(num1 / denom1) - ((x - a) / (self._tau**2))\<close>. The squared attribute is \<open>mu\<close>; the
  function does not read \<open>phi\<close>.
\<close>

definition Player_f :: "Player \<Rightarrow> real \<Rightarrow> real \<Rightarrow> real \<Rightarrow> real \<Rightarrow> real result" where
  "Player_f p x delta v a =
     (let ex = exp x;
          num1 = ex * (delta\<^sup>2 - (mu p)\<^sup>2 - v - ex);
          denom1 = 2 * ((mu p)\<^sup>2 + v + ex)\<^sup>2
      in result_bind (py_div num1 denom1) (\<lambda>q1.
         result_bind (py_div (x - a) (Player_tau\<^sup>2)) (\<lambda>q2.
           Inr (q1 - q2))))"

definition eps :: real where
  "eps = 1 / 1000000"

text \<open>
  Step 2, second branch: \<open>while self._f(a - k * math.sqrt(tau**2), delta, v, a) < 0: k = k + 1\<close>.
  The loop has no bound; \<open>None\<close> is the run that never leaves it. It returns the last \<open>k\<close>.
\<close>

partial_function (option) bracket_loop ::
  "Player \<Rightarrow> real \<Rightarrow> real \<Rightarrow> real \<Rightarrow> int \<Rightarrow> int result option" where
  "bracket_loop p delta v a k =
     (case Player_f p (a - real_of_int k * sqrt (Player_tau\<^sup>2)) delta v a of
        Inl e \<Rightarrow> Some (Inl e)
      | Inr y \<Rightarrow> if y < 0 then bracket_loop p delta v a (k + 1) else Some (Inr k))"

text \<open>
  Step 4: \<open>while math.fabs(B - A) > eps\<close>, on the loop variables \<open>A, B, fA, fB\<close>. The loop
  has no bound either. It returns the last \<open>A\<close>.
\<close>

partial_function (option) refine_loop ::
  "Player \<Rightarrow> real \<Rightarrow> real \<Rightarrow> real \<Rightarrow> real \<Rightarrow> real \<Rightarrow> real \<Rightarrow> real \<Rightarrow> real result option" where
  "refine_loop p delta v a A B fA fB =
     (if \<bar>B - A\<bar> > eps then
        (case result_bind (py_div ((A - B) * fA) (fB - fA)) (\<lambda>q.
                let C = A + q in
                result_bind (Player_f p C delta v a) (\<lambda>fC. Inr (C, fC))) of
           Inl e \<Rightarrow> Some (Inl e)
         | Inr (C, fC) \<Rightarrow>
             if fC * fB < 0 then refine_loop p delta v a B C fB fC
             else refine_loop p delta v a A C (fA / 2) fC)
      else Some (Inr A))"

text \<open>
  Steps 2 to 5 of \<open>_newVol\<close>, once \<open>a\<close> and \<open>delta\<close> are known: the choice of \<open>B\<close>
  (by \<open>math.log\<close> when \<open>delta**2 > self.phi**2 + v\<close>, by the bracket search otherwise),
  \<open>fA\<close> and \<open>fB\<close>, the refinement loop started at \<open>A = a\<close>, and \<open>math.exp(A / 2)\<close>.
\<close>

definition newVol_steps :: "Player \<Rightarrow> real \<Rightarrow> real \<Rightarrow> real \<Rightarrow> real result option" where
  "newVol_steps p a delta v =
     (case (if delta\<^sup>2 > (phi p)\<^sup>2 + v
            then Some (py_log (delta\<^sup>2 - (phi p)\<^sup>2 - v))
            else (case bracket_loop p delta v a 1 of
                    None \<Rightarrow> None
                  | Some (Inl e) \<Rightarrow> Some (Inl e)
                  | Some (Inr k) \<Rightarrow> Some (Inr (a - real_of_int k * sqrt (Player_tau\<^sup>2))))) of
        None \<Rightarrow> None
      | Some (Inl e) \<Rightarrow> Some (Inl e)
      | Some (Inr B) \<Rightarrow>
          (case Player_f p a delta v a of
             Inl e \<Rightarrow> Some (Inl e)
           | Inr fA \<Rightarrow>
               (case Player_f p B delta v a of
                  Inl e \<Rightarrow> Some (Inl e)
                | Inr fB \<Rightarrow>
                    (case refine_loop p delta v a a B fA fB of
                       None \<Rightarrow> None
                     | Some (Inl e) \<Rightarrow> Some (Inl e)
                     | Some (Inr A) \<Rightarrow> Some (Inr (exp (A / 2)))))))"

text \<open>
  \<open>_newVol\<close>: step 1 (\<open>a = math.log(self.vol**2)\<close>, which raises when the volatility is
  zero), then \<open>delta\<close>, then the steps above.
\<close>

definition Player_newVol ::
  "Player \<Rightarrow> real list \<Rightarrow> real list \<Rightarrow> real list \<Rightarrow> real \<Rightarrow> real result option" where
  "Player_newVol p rating_list RD_list outcome_list v =
     (case py_log ((vol p)\<^sup>2) of
        Inl e \<Rightarrow> Some (Inl e)
      | Inr a \<Rightarrow>
          (case Player_delta p rating_list RD_list outcome_list v of
             Inl e \<Rightarrow> Some (Inl e)
           | Inr delta \<Rightarrow> newVol_steps p a delta v))"

subsection \<open>The update\<close>

text \<open>
  \<open>update_player\<close> assigns to \<open>self.vol\<close>, \<open>self.phi\<close> (twice) and \<open>self.mu\<close>, in this
  order. The model returns the player as the call leaves it together with how the call
  ended: \<open>Inl e\<close> when it raised \<open>e\<close>, \<open>Inr ()\<close> when it returned. \<open>None\<close> is the call
  that never ends.
\<close>

definition update_player ::
  "Player \<Rightarrow> real list \<Rightarrow> real list \<Rightarrow> real list \<Rightarrow> (unit result \<times> Player) option" where
  "update_player p rating_list0 RD_list0 outcome_list =
     (let rating_list = map rating_to_mu rating_list0;
          RD_list = map rd_to_phi RD_list0
      in case Player_v p rating_list RD_list of
           Inl e \<Rightarrow> Some (Inl e, p)
         | Inr v \<Rightarrow>
             (case Player_newVol p rating_list RD_list outcome_list v of
                None \<Rightarrow> None
              | Some (Inl e) \<Rightarrow> Some (Inl e, p)
              | Some (Inr nv) \<Rightarrow>
                  (let p1 = p\<lparr>vol := nv\<rparr>;
                       p2 = Player_preRatingRD p1
                   in case result_bind (py_div 1 ((phi p2)\<^sup>2)) (\<lambda>q1.
                           result_bind (py_div 1 v) (\<lambda>q2.
                           result_bind (py_sqrt (q1 + q2)) (\<lambda>s.
                             py_div 1 s))) of
                        Inl e \<Rightarrow> Some (Inl e, p2)
                      | Inr ph \<Rightarrow>
                          (let p3 = p2\<lparr>phi := ph\<rparr>
                           in case score_loop p3 rating_list RD_list outcome_list
                                     [0..<length rating_list] 0 of
                                Inl e \<Rightarrow> Some (Inl e, p3)
                              | Inr tempSum \<Rightarrow>
                                  Some (Inr (), p3\<lparr>mu := mu p3 + (phi p3)\<^sup>2 * tempSum\<rparr>)))))"

subsection \<open>Summands of the two aggregation loops\<close>

text \<open>The term that one iteration of the loop of \<open>_v\<close> adds to \<open>tempSum\<close>, and the term
  that one iteration of the loop of \<open>_delta\<close> adds.\<close>

definition v_term :: "Player \<Rightarrow> real \<Rightarrow> real \<Rightarrow> real" where
  "v_term p r rd = (Player_g rd)\<^sup>2 * Player_E p r rd * (1 - Player_E p r rd)"

definition score_term :: "Player \<Rightarrow> real \<Rightarrow> real \<Rightarrow> real \<Rightarrow> real" where
  "score_term p r rd s = Player_g rd * (s - Player_E p r rd)"

subsection \<open>A period's games and the published closed forms\<close>

text \<open>
  A game is the triple (opponent rating, opponent deviation, score) on the public scale;
  \<open>update_player\<close> receives a period's games as three parallel lists.
\<close>

type_synonym game = "real \<times> real \<times> real"

definition ratings_of :: "game list \<Rightarrow> real list" where
  "ratings_of games = map (\<lambda>(r, d, s). r) games"

definition RDs_of :: "game list \<Rightarrow> real list" where
  "RDs_of games = map (\<lambda>(r, d, s). d) games"

definition outcomes_of :: "game list \<Rightarrow> real list" where
  "outcomes_of games = map (\<lambda>(r, d, s). s) games"

text \<open>
  The aggregates as the specification writes them (section 4.5), as sums over the games,
  with \<open>E\<close> taken at the player \<open>p\<close> that is passed in.
\<close>

definition period_v :: "Player \<Rightarrow> game list \<Rightarrow> real" where
  "period_v p games =
     1 / (\<Sum>(r, d, s)\<leftarrow>games.
            (Player_g (rd_to_phi d))\<^sup>2 * Player_E p (rating_to_mu r) (rd_to_phi d)
              * (1 - Player_E p (rating_to_mu r) (rd_to_phi d)))"

definition period_score_sum :: "Player \<Rightarrow> game list \<Rightarrow> real" where
  "period_score_sum p games =
     (\<Sum>(r, d, s)\<leftarrow>games.
        Player_g (rd_to_phi d) * (s - Player_E p (rating_to_mu r) (rd_to_phi d)))"

text \<open>
  The function \<open>f\<close> of the volatility equation as the specification writes it
  (section 4.6), with the squared deviation \<open>ph\<close> of the player.
\<close>

definition f_canonical :: "real \<Rightarrow> real \<Rightarrow> real \<Rightarrow> real \<Rightarrow> real \<Rightarrow> real \<Rightarrow> real" where
  "f_canonical ph tau delta v a x =
     exp x * (delta\<^sup>2 - ph\<^sup>2 - v - exp x) / (2 * (ph\<^sup>2 + v + exp x)\<^sup>2) - (x - a) / tau\<^sup>2"

section \<open>Basic facts\<close>

lemma SCALE_pos: "0 < SCALE"
  by (simp add: SCALE_def)

lemma g_radicand_ge_1: "1 \<le> 1 + 3 * RD\<^sup>2 / pi\<^sup>2"
  by simp

lemma Player_g_pos: "0 < Player_g RD"
proof -
  have "0 < 1 + 3 * RD\<^sup>2 / pi\<^sup>2"
    using g_radicand_ge_1 [of RD] by linarith
  then show ?thesis by (simp add: Player_g_def)
qed

lemma E_denominator_gt_1: "1 < 1 + exp (- 1 * Player_g p2phi * (mu p - p2mu))"
  by simp

lemma Player_E_range: "0 < Player_E p p2mu p2phi \<and> Player_E p p2mu p2phi < 1"
proof -
  have "0 < exp (- 1 * Player_g p2phi * (mu p - p2mu))" by simp
  then show ?thesis unfolding Player_E_def
    by (simp add: add_pos_pos)
qed

lemma logistic_complement: "1 / (1 + exp (- x)) + 1 / (1 + exp (x::real)) = 1"
proof -
  have e: "exp (- x) = 1 / exp x" by (simp add: exp_minus inverse_eq_divide)
  have p: "0 < exp x" by simp
  then have nz: "1 + exp x \<noteq> 0" by linarith
  have "1 / (1 + 1 / exp x) = exp x / (1 + exp x)"
    using p by (simp add: field_simps)
  then have "1 / (1 + exp (- x)) + 1 / (1 + exp x) = (exp x + 1) / (1 + exp x)"
    unfolding e by (simp add: add_divide_distrib)
  also have "\<dots> = 1" using nz by (simp add: add.commute)
  finally show ?thesis .
qed

section \<open>The aggregation loops in closed form\<close>

lemma v_term_pos: "0 < v_term p r rd"
  using Player_g_pos [of rd] Player_E_range [of p r rd]
  by (simp add: v_term_def)

lemma v_loop_eq:
  "v_loop p rl rdl idx acc =
     (if \<forall>i\<in>set idx. i < length rl \<and> i < length rdl
      then Inr (acc + (\<Sum>i\<leftarrow>idx. v_term p (rl ! i) (rdl ! i)))
      else Inl IndexError)"
proof (induction idx arbitrary: acc)
  case Nil
  show ?case by simp
next
  case (Cons i idx)
  show ?case
    by (simp add: Cons.IH result_bind_def getitem_def v_term_def Let_def add.assoc)
qed

lemma score_loop_eq:
  "score_loop p rl rdl ol idx acc =
     (if \<forall>i\<in>set idx. i < length rl \<and> i < length rdl \<and> i < length ol
      then Inr (acc + (\<Sum>i\<leftarrow>idx. score_term p (rl ! i) (rdl ! i) (ol ! i)))
      else Inl IndexError)"
proof (induction idx arbitrary: acc)
  case Nil
  show ?case by simp
next
  case (Cons i idx)
  show ?case
    by (auto simp add: Cons.IH result_bind_def getitem_def score_term_def add.assoc)
qed

lemma all_upt_less: "(\<forall>i\<in>set [0..<n]. i < m) \<longleftrightarrow> n \<le> m"
  by (cases n) auto

lemma Player_v_eq:
  "Player_v p rl rdl =
     (if length rl \<le> length rdl
      then py_div 1 (\<Sum>i\<leftarrow>[0..<length rl]. v_term p (rl ! i) (rdl ! i))
      else Inl IndexError)"
  using all_upt_less [of "length rl" "length rdl"]
  by (simp add: Player_v_def v_loop_eq result_bind_def)

lemma sum_list_pos_real:
  fixes f :: "'a \<Rightarrow> real"
  assumes "\<And>x. 0 < f x" and "xs \<noteq> []"
  shows "0 < sum_list (map f xs)"
  using assms(2)
proof (induction xs)
  case Nil then show ?case by simp
next
  case (Cons x xs)
  have "0 \<le> sum_list (map f xs)"
    by (rule sum_list_nonneg) (auto intro: less_imp_le assms(1))
  then show ?case using assms(1) [of x] by simp
qed

lemma score_term_mu: "mu q = mu p \<Longrightarrow> score_term q r rd s = score_term p r rd s"
  by (simp add: score_term_def Player_E_def)

lemma sum_list_index:
  fixes H :: "'a \<Rightarrow> real"
  shows "(\<Sum>i\<leftarrow>[0..<length xs]. H (xs ! i)) = (\<Sum>x\<leftarrow>xs. H x)"
proof -
  have "map (\<lambda>i. H (xs ! i)) [0..<length xs] = map H (map ((!) xs) [0..<length xs])"
    by simp
  then show ?thesis by (simp only: map_nth)
qed

lemma games_lengths [simp]:
  "length (ratings_of games) = length games"
  "length (RDs_of games) = length games"
  "length (outcomes_of games) = length games"
  by (simp_all add: ratings_of_def RDs_of_def outcomes_of_def)

lemma v_sum_games:
  "(\<Sum>i\<leftarrow>[0..<length games].
      v_term p (map rating_to_mu (ratings_of games) ! i) (map rd_to_phi (RDs_of games) ! i))
   = (\<Sum>(r, d, s)\<leftarrow>games. v_term p (rating_to_mu r) (rd_to_phi d))"
proof -
  have "map (\<lambda>i. v_term p (map rating_to_mu (ratings_of games) ! i)
                     (map rd_to_phi (RDs_of games) ! i)) [0..<length games]
      = map (\<lambda>i. (\<lambda>(r, d, s). v_term p (rating_to_mu r) (rd_to_phi d)) (games ! i))
          [0..<length games]"
    by (rule map_cong) (auto simp add: ratings_of_def RDs_of_def split: prod.splits)
  then have "(\<Sum>i\<leftarrow>[0..<length games].
      v_term p (map rating_to_mu (ratings_of games) ! i) (map rd_to_phi (RDs_of games) ! i))
    = (\<Sum>i\<leftarrow>[0..<length games].
        (\<lambda>(r, d, s). v_term p (rating_to_mu r) (rd_to_phi d)) (games ! i))"
    by (rule arg_cong)
  also have "\<dots> = (\<Sum>(r, d, s)\<leftarrow>games. v_term p (rating_to_mu r) (rd_to_phi d))"
    by (rule sum_list_index)
  finally show ?thesis .
qed

lemma score_sum_games:
  "(\<Sum>i\<leftarrow>[0..<length games].
      score_term p (map rating_to_mu (ratings_of games) ! i) (map rd_to_phi (RDs_of games) ! i)
        (outcomes_of games ! i))
   = (\<Sum>(r, d, s)\<leftarrow>games. score_term p (rating_to_mu r) (rd_to_phi d) s)"
proof -
  have "map (\<lambda>i. score_term p (map rating_to_mu (ratings_of games) ! i)
                     (map rd_to_phi (RDs_of games) ! i) (outcomes_of games ! i)) [0..<length games]
      = map (\<lambda>i. (\<lambda>(r, d, s). score_term p (rating_to_mu r) (rd_to_phi d) s) (games ! i))
          [0..<length games]"
    by (rule map_cong) (auto simp add: ratings_of_def RDs_of_def outcomes_of_def split: prod.splits)
  then have "(\<Sum>i\<leftarrow>[0..<length games].
      score_term p (map rating_to_mu (ratings_of games) ! i) (map rd_to_phi (RDs_of games) ! i)
        (outcomes_of games ! i))
    = (\<Sum>i\<leftarrow>[0..<length games].
        (\<lambda>(r, d, s). score_term p (rating_to_mu r) (rd_to_phi d) s) (games ! i))"
    by (rule arg_cong)
  also have "\<dots> = (\<Sum>(r, d, s)\<leftarrow>games. score_term p (rating_to_mu r) (rd_to_phi d) s)"
    by (rule sum_list_index)
  finally show ?thesis .
qed

lemma period_v_eq:
  "period_v p games = 1 / (\<Sum>(r, d, s)\<leftarrow>games. v_term p (rating_to_mu r) (rd_to_phi d))"
  by (simp add: period_v_def v_term_def)

lemma period_score_sum_eq:
  "period_score_sum p games = (\<Sum>(r, d, s)\<leftarrow>games. score_term p (rating_to_mu r) (rd_to_phi d) s)"
  by (simp add: period_score_sum_def score_term_def)

lemma sum_list_games_mset:
  fixes H :: "game \<Rightarrow> real"
  assumes "mset games' = mset games"
  shows "(\<Sum>g\<leftarrow>games'. H g) = (\<Sum>g\<leftarrow>games. H g)"
proof -
  have "mset (map H games') = mset (map H games)"
    using assms by (metis mset_map)
  then show ?thesis by (metis sum_mset_sum_list)
qed

lemma Player_v_games:
  "Player_v p (map rating_to_mu (ratings_of games)) (map rd_to_phi (RDs_of games)) =
     py_div 1 (\<Sum>(r, d, s)\<leftarrow>games. v_term p (rating_to_mu r) (rd_to_phi d))"
  by (simp add: Player_v_eq v_sum_games)

lemma score_loop_games:
  "score_loop p (map rating_to_mu (ratings_of games)) (map rd_to_phi (RDs_of games))
       (outcomes_of games) [0..<length (map rating_to_mu (ratings_of games))] 0 =
     Inr (\<Sum>(r, d, s)\<leftarrow>games. score_term p (rating_to_mu r) (rd_to_phi d) s)"
  by (simp add: score_loop_eq score_sum_games)

section \<open>The loops of the solver\<close>

lemma Player_f_value:
  assumes "0 < v"
  shows "Player_f p x delta v a =
     Inr (exp x * (delta\<^sup>2 - (mu p)\<^sup>2 - v - exp x) / (2 * ((mu p)\<^sup>2 + v + exp x)\<^sup>2)
          - (x - a) / Player_tau\<^sup>2)"
proof -
  have "0 < (mu p)\<^sup>2 + v + exp x"
    using assms by (simp add: add_nonneg_pos add_pos_pos)
  then have "2 * ((mu p)\<^sup>2 + v + exp x)\<^sup>2 \<noteq> 0" by simp
  moreover have "Player_tau\<^sup>2 \<noteq> 0" by (simp add: Player_tau_def)
  ultimately show ?thesis
    by (simp add: Player_f_def Let_def result_bind_def py_div_def)
qed

lemma f_first_term_lower:
  fixes d m v ex :: real
  assumes "0 < v" and "0 < ex"
  shows "- (1 / 2) \<le> ex * (d\<^sup>2 - m\<^sup>2 - v - ex) / (2 * (m\<^sup>2 + v + ex)\<^sup>2)"
proof -
  define D where "D = m\<^sup>2 + v + ex"
  have Dpos: "0 < D" unfolding D_def using assms by (simp add: add_nonneg_pos add_pos_pos)
  have exD: "ex \<le> D" unfolding D_def using assms by simp
  have "ex * D \<le> D * D" using exD Dpos by (simp add: mult_right_mono)
  moreover have "0 \<le> ex * d\<^sup>2" using assms by simp
  ultimately have "- (D * D) \<le> ex * d\<^sup>2 - ex * D" by linarith
  also have "ex * d\<^sup>2 - ex * D = ex * (d\<^sup>2 - m\<^sup>2 - v - ex)"
    unfolding D_def by (simp add: algebra_simps)
  finally have n: "- (D\<^sup>2) \<le> ex * (d\<^sup>2 - m\<^sup>2 - v - ex)" by (simp add: power2_eq_square)
  have "- (D\<^sup>2) / (2 * D\<^sup>2) \<le> ex * (d\<^sup>2 - m\<^sup>2 - v - ex) / (2 * D\<^sup>2)"
    by (rule divide_right_mono [OF n]) simp
  moreover have "- (D\<^sup>2) / (2 * D\<^sup>2) = - (1 / 2)" using Dpos by simp
  ultimately show ?thesis unfolding D_def by (simp only:)
qed

lemma bracket_loop_first:
  assumes "0 < v"
  shows "bracket_loop p delta v a 1 = Some (Inr 1)"
proof -
  let ?x = "a - real_of_int 1 * sqrt (Player_tau\<^sup>2)"
  have t: "(?x - a) / Player_tau\<^sup>2 = - 2"
    by (simp add: Player_tau_def real_sqrt_divide power2_eq_square)
  have "- (1 / 2) \<le> exp ?x * (delta\<^sup>2 - (mu p)\<^sup>2 - v - exp ?x) / (2 * ((mu p)\<^sup>2 + v + exp ?x)\<^sup>2)"
    using assms by (intro f_first_term_lower) simp_all
  then have "\<not> exp ?x * (delta\<^sup>2 - (mu p)\<^sup>2 - v - exp ?x) / (2 * ((mu p)\<^sup>2 + v + exp ?x)\<^sup>2)
          - (?x - a) / Player_tau\<^sup>2 < 0"
    unfolding t by linarith
  then show ?thesis
    by (subst bracket_loop.simps) (simp only: Player_f_value [OF assms] sum.case if_False)
qed

lemma refine_loop_stuck_aux:
  assumes fB0: "Player_f p B delta v a = Inr 0" and far: "eps < \<bar>B - A\<bar>"
    and run: "refine_loop p' delta' v' a' A' B' fA' fB' = Some y"
  shows "\<not> (p' = p \<and> delta' = delta \<and> v' = v \<and> a' = a \<and> A' = A \<and> B' = B \<and>
            fB' = 0 \<and> fA' \<noteq> 0)"
proof (rule refine_loop.raw_induct [where P = "\<lambda>q d w b X Y gX gY r.
         \<not> (q = p \<and> d = delta \<and> w = v \<and> b = a \<and> X = A \<and> Y = B \<and> gY = 0 \<and> gX \<noteq> 0)",
       OF _ run], goal_cases)
  case (1 loop q d w b X Y gX gY r)
  show ?case
  proof
    assume inv: "q = p \<and> d = delta \<and> w = v \<and> b = a \<and> X = A \<and> Y = B \<and> gY = 0 \<and> gX \<noteq> 0"
    then have nz: "gX \<noteq> 0" by simp
    have quot: "(A - B) * gX / (0 - gX) = B - A"
      using nz by (simp add: field_simps)
    have step: "loop p delta v a A B (gX / 2) 0 = Some r"
      using 1(2) inv far nz
      by (simp add: result_bind_def py_div_def quot fB0)
    have "gX / 2 \<noteq> 0" using nz by simp
    with 1(1) [OF step] show False by simp
  qed
qed

lemma refine_loop_stuck:
  assumes "Player_f p B delta v a = Inr 0" and "eps < \<bar>B - A\<bar>" and "fA \<noteq> 0"
  shows "refine_loop p delta v a A B fA 0 = None"
proof (cases "refine_loop p delta v a A B fA 0")
  case None
  then show ?thesis .
next
  case (Some y)
  from refine_loop_stuck_aux [OF assms(1,2) Some] assms(3) show ?thesis by simp
qed

lemma refine_loop_done:
  assumes "\<bar>B - A\<bar> \<le> eps"
  shows "refine_loop p delta v a A B fA fB = Some (Inr A)"
  using assms by (subst refine_loop.simps) simp


lemma Player_f_ignores_phi: "Player_f (p\<lparr>phi := q\<rparr>) x delta v a = Player_f p x delta v a"
  by (simp add: Player_f_def)

lemma newVol_steps_immediate:
  assumes "0 < v" and "(phi p)\<^sup>2 + v < delta\<^sup>2" and "ln (delta\<^sup>2 - (phi p)\<^sup>2 - v) = a"
  shows "newVol_steps p a delta v = Some (Inr (exp (a / 2)))"
proof -
  have pos: "\<not> delta\<^sup>2 - (phi p)\<^sup>2 - v \<le> 0" using assms(2) by simp
  have l: "py_log (delta\<^sup>2 - (phi p)\<^sup>2 - v) = Inr a"
    using pos assms(3) by (simp add: py_log_def)
  have r: "refine_loop p delta v a a a fA fB = Some (Inr a)" for fA fB
    by (subst refine_loop.simps) (simp add: eps_def)
  show ?thesis
    unfolding newVol_steps_def using assms(2)
    by (simp add: l Player_f_value [OF assms(1)] r)
qed

lemma newVol_steps_stuck:
  assumes v: "0 < v" and br: "(phi p)\<^sup>2 + v < delta\<^sup>2"
    and fB: "Player_f p (ln (delta\<^sup>2 - (phi p)\<^sup>2 - v)) delta v a = Inr 0"
    and fA: "Player_f p a delta v a = Inr fA" "fA \<noteq> 0"
    and far: "eps < \<bar>ln (delta\<^sup>2 - (phi p)\<^sup>2 - v) - a\<bar>"
  shows "newVol_steps p a delta v = None"
proof -
  have pos: "\<not> delta\<^sup>2 - (phi p)\<^sup>2 - v \<le> 0" using br by simp
  have l: "py_log (delta\<^sup>2 - (phi p)\<^sup>2 - v) = Inr (ln (delta\<^sup>2 - (phi p)\<^sup>2 - v))"
    using pos by (simp add: py_log_def)
  show ?thesis
    unfolding newVol_steps_def using br
    by (simp add: l fB fA(1) refine_loop_stuck [OF fB far fA(2)])
qed

lemma newVol_steps_pos:
  assumes "newVol_steps p a delta v = Some (Inr nv)"
  shows "0 < nv"
  using assms unfolding newVol_steps_def
  by (auto split: option.splits sum.splits if_splits)

section \<open>The update in closed form\<close>

lemma update_player_eq:
  fixes rl rdl ol :: "real list" and p :: Player
  defines "rl' \<equiv> map rating_to_mu rl" and "rdl' \<equiv> map rd_to_phi rdl"
  defines "S1 \<equiv> (\<Sum>i\<leftarrow>[0..<length rl]. v_term p (rl' ! i) (rdl' ! i))"
  defines "S2 \<equiv> (\<Sum>i\<leftarrow>[0..<length rl]. score_term p (rl' ! i) (rdl' ! i) (ol ! i))"
  assumes len: "length rl \<le> length rdl" "length rl \<le> length ol"
    and ne: "rl \<noteq> []" and vol: "vol p \<noteq> 0"
  shows "update_player p rl rdl ol =
    (case newVol_steps p (ln ((vol p)\<^sup>2)) (1 / S1 * S2) (1 / S1) of
       None \<Rightarrow> None
     | Some (Inl e) \<Rightarrow> Some (Inl e, p)
     | Some (Inr nv) \<Rightarrow>
         Some (Inr (), \<lparr>mu = mu p + (1 / sqrt (1 / ((phi p)\<^sup>2 + nv\<^sup>2) + 1 / (1 / S1)))\<^sup>2 * S2,
                       phi = 1 / sqrt (1 / ((phi p)\<^sup>2 + nv\<^sup>2) + 1 / (1 / S1)),
                       vol = nv\<rparr>))"
proof -
  define V where "V = 1 / S1"
  define D where "D = V * S2"
  have S1pos: "0 < S1"
    unfolding S1_def using ne by (intro sum_list_pos_real v_term_pos) simp
  have Vpos: "0 < V" using S1pos by (simp add: V_def)
  have v: "Player_v p rl' rdl' = Inr V"
    using len S1pos by (simp add: Player_v_eq rl'_def rdl'_def S1_def py_div_def V_def)
  have idx: "\<forall>i\<in>set [0..<length rl']. i < length rl' \<and> i < length rdl' \<and> i < length ol"
    using len by (simp add: rl'_def rdl'_def)
  have sl: "score_loop q rl' rdl' ol [0..<length rl'] 0 = Inr S2" if "mu q = mu p" for q
  proof -
    have "(\<Sum>i\<leftarrow>[0..<length rl]. score_term q (rl' ! i) (rdl' ! i) (ol ! i)) = S2"
      unfolding S2_def by (simp add: score_term_mu [OF that])
    then show ?thesis
      unfolding score_loop_eq using idx by (simp add: rl'_def)
  qed
  have d: "Player_delta p rl' rdl' ol V = Inr D"
    by (simp add: Player_delta_def sl result_bind_def D_def)
  have nV: "Player_newVol p rl' rdl' ol V = newVol_steps p (ln ((vol p)\<^sup>2)) D V"
    using vol by (simp add: Player_newVol_def py_log_def d)
  have main: "update_player p rl rdl ol =
      (case newVol_steps p (ln ((vol p)\<^sup>2)) D V of
         None \<Rightarrow> None
       | Some (Inl e) \<Rightarrow> Some (Inl e, p)
       | Some (Inr nv) \<Rightarrow>
           Some (Inr (), \<lparr>mu = mu p + (1 / sqrt (1 / ((phi p)\<^sup>2 + nv\<^sup>2) + 1 / V))\<^sup>2 * S2,
                         phi = 1 / sqrt (1 / ((phi p)\<^sup>2 + nv\<^sup>2) + 1 / V),
                         vol = nv\<rparr>))"
  proof (cases "newVol_steps p (ln ((vol p)\<^sup>2)) D V")
    case None
    then show ?thesis
      unfolding update_player_def Let_def rl'_def [symmetric] rdl'_def [symmetric] v sum.case nV by simp
  next
    case (Some r)
    show ?thesis
    proof (cases r)
      case (Inl e)
      then show ?thesis
        unfolding update_player_def Let_def rl'_def [symmetric] rdl'_def [symmetric] v sum.case nV Some by simp
    next
      case (Inr nv)
      have nvpos: "0 < nv" using Some Inr by (auto intro: newVol_steps_pos)
      define W where "W = (phi p)\<^sup>2 + nv\<^sup>2"
      have Wpos: "0 < W" unfolding W_def using nvpos by (simp add: add_nonneg_pos)
      have Q: "0 < 1 / W + 1 / V" using Wpos Vpos by (simp add: add_pos_pos)
      have ph2: "(phi (Player_preRatingRD (p\<lparr>vol := nv\<rparr>)))\<^sup>2 = W"
        using Wpos by (simp add: Player_preRatingRD_def W_def)
      have chain: "result_bind (py_div 1 W) (\<lambda>q1.
                     result_bind (py_div 1 V) (\<lambda>q2.
                     result_bind (py_sqrt (q1 + q2)) (\<lambda>s. py_div 1 s)))
                   = Inr (1 / sqrt (1 / W + 1 / V))"
        using Wpos Vpos Q
        by (simp add: result_bind_def py_div_def py_sqrt_def)
      show ?thesis
        unfolding update_player_def Let_def rl'_def [symmetric] rdl'_def [symmetric] v sum.case nV
          Some option.case Inr ph2 chain
        by (simp add: sl W_def Player_preRatingRD_def)
    qed
  qed
  show ?thesis unfolding main D_def V_def ..
qed

lemma Player_v_returns:
  assumes "rl \<noteq> []" and "length rl \<le> length rdl"
  shows "\<exists>V. 0 < V \<and> Player_v p rl rdl = Inr V"
proof -
  let ?S = "\<Sum>i\<leftarrow>[0..<length rl]. v_term p (rl ! i) (rdl ! i)"
  have "0 < ?S" using assms(1) by (intro sum_list_pos_real v_term_pos) simp
  then have "0 < 1 / ?S \<and> Player_v p rl rdl = Inr (1 / ?S)"
    using assms(2) by (simp add: Player_v_eq py_div_def)
  then show ?thesis by blast
qed

lemma update_player_empty:
  "update_player p [] rdl ol = Some (Inl ZeroDivisionError, p)"
  by (simp add: update_player_def Player_v_def result_bind_def py_div_def)

lemma update_player_short_RD:
  assumes "length rdl < length rl"
  shows "update_player p rl rdl ol = Some (Inl IndexError, p)"
  using assms by (simp add: update_player_def Player_v_eq)

lemma update_player_vol_0:
  assumes "rl \<noteq> []" and "length rl \<le> length rdl" and "vol p = 0"
  shows "update_player p rl rdl ol = Some (Inl ValueError, p)"
proof -
  obtain V where "Player_v p (map rating_to_mu rl) (map rd_to_phi rdl) = Inr V"
    using Player_v_returns [of "map rating_to_mu rl" "map rd_to_phi rdl" p] assms(1,2) by auto
  then show ?thesis
    using assms(3) by (simp add: update_player_def Player_newVol_def py_log_def)
qed

lemma update_player_short_outcomes:
  assumes "rl \<noteq> []" and "length rl \<le> length rdl" and "vol p \<noteq> 0"
    and "length ol < length rl"
  shows "update_player p rl rdl ol = Some (Inl IndexError, p)"
proof -
  obtain V where V: "Player_v p (map rating_to_mu rl) (map rd_to_phi rdl) = Inr V"
    using Player_v_returns [of "map rating_to_mu rl" "map rd_to_phi rdl" p] assms(1,2) by auto
  have "\<not> (\<forall>i\<in>set [0..<length rl]. i < length rl \<and> i < length rdl \<and> i < length ol)"
    using assms(4) all_upt_less [of "length rl" "length ol"] by auto
  then have "Player_delta p (map rating_to_mu rl) (map rd_to_phi rdl) ol V = Inl IndexError"
    by (simp add: Player_delta_def score_loop_eq result_bind_def)
  then show ?thesis
    using assms(3) V by (simp add: update_player_def Player_newVol_def py_log_def)
qed

lemma update_player_raise_unchanged:
  assumes "update_player p rl rdl ol = Some (Inl e, p')"
  shows "p' = p"
proof -
  consider "rl = []" | "length rdl < length rl"
    | "rl \<noteq> []" "length rl \<le> length rdl" "vol p = 0"
    | "rl \<noteq> []" "length rl \<le> length rdl" "vol p \<noteq> 0" "length ol < length rl"
    | "rl \<noteq> []" "length rl \<le> length rdl" "vol p \<noteq> 0" "length rl \<le> length ol"
    by linarith
  then show ?thesis
  proof cases
    case 1
    then show ?thesis using assms by (simp add: update_player_empty)
  next
    case 2
    then show ?thesis using assms by (simp add: update_player_short_RD)
  next
    case 3
    then show ?thesis using assms by (simp add: update_player_vol_0)
  next
    case 4
    then show ?thesis using assms by (simp add: update_player_short_outcomes)
  next
    case 5
    show ?thesis
      using assms unfolding update_player_eq [OF 5(2) 5(4) 5(1) 5(3)]
      by (auto split: option.splits sum.splits)
  qed
qed

section \<open>Values at particular players and games\<close>

lemma Player_g_0: "Player_g 0 = 1"
  by (simp add: Player_g_def)

lemma Player_E_equal: "mu p = m \<Longrightarrow> Player_E p m d = 1 / 2"
  by (simp add: Player_E_def)

lemma rating_to_mu_1500: "rating_to_mu 1500 = 0"
  by (simp add: rating_to_mu_def)

lemma rd_to_phi_0: "rd_to_phi 0 = 0"
  by (simp add: rd_to_phi_def)

lemma period_v_two_equal:
  assumes "mu p = 0"
  shows "period_v p [(1500, 0, s1), (1500, 0, s2)] = 2"
  by (simp add: Player_E_equal [OF assms] period_v_def rating_to_mu_1500 rd_to_phi_0 Player_g_0)

lemma period_score_sum_two_equal:
  assumes "mu p = 0"
  shows "period_score_sum p [(1500, 0, 1), (1500, 0, 1)] = 1"
  by (simp add: Player_E_equal [OF assms] period_score_sum_def rating_to_mu_1500 rd_to_phi_0 Player_g_0)

lemma v_term_equal: "mu p = 0 \<Longrightarrow> v_term p 0 0 = 1 / 4"
  by (simp add: v_term_def Player_g_0 Player_E_equal power2_eq_square)

lemma score_term_equal: "mu p = 0 \<Longrightarrow> score_term p 0 0 s = s - 1 / 2"
  by (simp add: score_term_def Player_g_0 Player_E_equal)

lemma Player_init_unit: "Player_init 1500 (1737178 / 10000) w = \<lparr>mu = 0, phi = 1, vol = w\<rparr>"
  by (simp add: Player_init_def rating_to_mu_def rd_to_phi_def SCALE_def)

lemma Player_init_two: "Player_init 1500 (3474356 / 10000) w = \<lparr>mu = 0, phi = 2, vol = w\<rparr>"
  by (simp add: Player_init_def rating_to_mu_def rd_to_phi_def SCALE_def)

lemma lists_of_two:
  "ratings_of [(r1, d1, s1), (r2, d2, s2)] = [r1, r2]"
  "RDs_of [(r1, d1, s1), (r2, d2, s2)] = [d1, d2]"
  "outcomes_of [(r1, d1, s1), (r2, d2, s2)] = [s1, s2]"
  by (simp_all add: ratings_of_def RDs_of_def outcomes_of_def)

lemma Player_f_root_example:
  assumes "mu p = 0"
  shows "Player_f p 0 2 2 (- (1 / 72)) = Inr 0"
  by (simp add: Player_f_value assms Player_tau_def power2_eq_square)

lemma ln_exp_square: "ln ((exp x)\<^sup>2) = 2 * (x::real)"
proof -
  have "(exp x)\<^sup>2 = exp (2 * x)" by (simp add: exp_double)
  then show ?thesis by simp
qed

lemma eps_small: "eps < 1 / 72"
  by (simp add: eps_def)

lemma newVol_steps_example_stuck:
  assumes "mu p = 0" and "phi p = 1"
  shows "newVol_steps p (- (1 / 72)) 2 2 = None"
proof -
  let ?a = "- (1 / 72) :: real"
  let ?e = "exp ?a"
  have e1: "?e < 1" by simp
  have e0: "0 < ?e" by simp
  have l: "ln (2\<^sup>2 - (phi p)\<^sup>2 - 2) = (0::real)" using assms(2) by simp
  have fB: "Player_f p (ln (2\<^sup>2 - (phi p)\<^sup>2 - 2)) 2 2 ?a = Inr 0"
    unfolding l by (rule Player_f_root_example [OF assms(1)])
  define fA where "fA = ?e * (2\<^sup>2 - (mu p)\<^sup>2 - 2 - ?e) / (2 * ((mu p)\<^sup>2 + 2 + ?e)\<^sup>2)
                         - (?a - ?a) / Player_tau\<^sup>2"
  have fA: "Player_f p ?a 2 2 ?a = Inr fA"
    unfolding fA_def by (rule Player_f_value) simp
  have "0 < 2 - ?e" using e1 by linarith
  then have "0 < ?e * (2 - ?e)" using e0 by (rule mult_pos_pos [rotated])
  moreover have "0 < 2 + ?e" using e0 by linarith
  then have "0 < 2 * (2 + ?e)\<^sup>2" by simp
  ultimately have "0 < ?e * (2 - ?e) / (2 * (2 + ?e)\<^sup>2)" by (rule divide_pos_pos)
  moreover have "fA = ?e * (2 - ?e) / (2 * (2 + ?e)\<^sup>2)"
    unfolding fA_def using assms(1) by simp
  ultimately have "0 < fA" by (simp only:)
  then have nz: "fA \<noteq> 0" by linarith
  have far: "eps < \<bar>ln (2\<^sup>2 - (phi p)\<^sup>2 - 2) - ?a\<bar>"
    unfolding l using eps_small by simp
  show ?thesis
    by (rule newVol_steps_stuck [OF _ _ fB fA nz far]) (simp_all add: assms(2))
qed

section \<open>Scale conversion, prediction and decay\<close>

text \<open>
  Claim C8. For every real \<open>r\<close>, \<open>mu_to_rating (rating_to_mu r) = r\<close>, and for every real
  \<open>d\<close>, \<open>phi_to_rd (rd_to_phi d) = d\<close>; the conversions are inverse to each other in both
  directions, hence bijections of the reals, and nothing is clamped.
\<close>

theorem scale_round_trip:
  "mu_to_rating (rating_to_mu r) = r \<and> phi_to_rd (rd_to_phi d) = d \<and>
   rating_to_mu (mu_to_rating m) = m \<and> rd_to_phi (phi_to_rd ph) = ph \<and>
   bij rating_to_mu \<and> bij rd_to_phi"
proof -
  have nz: "SCALE \<noteq> 0" using SCALE_pos by simp
  have a: "\<And>r. mu_to_rating (rating_to_mu r) = r"
    using nz by (simp add: mu_to_rating_def rating_to_mu_def)
  have b: "\<And>m. rating_to_mu (mu_to_rating m) = m"
    using nz by (simp add: mu_to_rating_def rating_to_mu_def)
  have c: "\<And>d. phi_to_rd (rd_to_phi d) = d"
    using nz by (simp add: phi_to_rd_def rd_to_phi_def)
  have d: "\<And>ph. rd_to_phi (phi_to_rd ph) = ph"
    using nz by (simp add: phi_to_rd_def rd_to_phi_def)
  have "bij rating_to_mu"
    by (rule bijI') (metis a, metis b)
  moreover have "bij rd_to_phi"
    by (rule bijI') (metis c, metis d)
  ultimately show ?thesis using a b c d by simp
qed

text \<open>
  Claim C7. \<open>win_prob A B\<close> is \<open>1 / (1 + exp (- g (sqrt (A.phi^2 + B.phi^2)) * (A.mu - B.mu)))\<close>,
  with \<open>g\<close> applied to the combined deviation of the two players, and it lies strictly
  between 0 and 1. (\<open>win_prob\<close> assigns to no attribute of either player: in the model it
  returns a number and no player.)
\<close>

theorem win_prob_formula_range:
  "win_prob A B =
     1 / (1 + exp (- Player_g (sqrt ((phi A)\<^sup>2 + (phi B)\<^sup>2)) * (mu A - mu B))) \<and>
   0 < win_prob A B \<and> win_prob A B < 1"
proof -
  have "0 < exp (- 1 * Player_g (sqrt ((phi A)\<^sup>2 + (phi B)\<^sup>2)) * (mu A - mu B))" by simp
  then show ?thesis unfolding win_prob_def by (simp add: add_pos_pos)
qed

text \<open>
  Claim C9. A player constructed with the defaults (rating 1500, deviation 350, volatility
  0.06) has \<open>win_prob\<close> one half against itself, and against another player constructed
  the same way.
\<close>

theorem win_prob_default_self:
  "win_prob Player_default Player_default = 1 / 2 \<and>
   win_prob (Player_init 1500 350 (6 / 100)) (Player_init 1500 350 (6 / 100)) = 1 / 2"
  by (simp add: win_prob_def Player_default_def)

text \<open>
  Claim C10. For all players \<open>A\<close> and \<open>B\<close>, \<open>win_prob A B + win_prob B A = 1\<close>: the
  \<open>g\<close> factor is symmetric in the two players and the rating difference changes sign.
\<close>

theorem win_prob_complement: "win_prob A B + win_prob B A = 1"
proof -
  let ?g = "Player_g (sqrt ((phi A)\<^sup>2 + (phi B)\<^sup>2))"
  let ?x = "?g * (mu A - mu B)"
  have s: "(phi B)\<^sup>2 + (phi A)\<^sup>2 = (phi A)\<^sup>2 + (phi B)\<^sup>2" by simp
  have 1: "win_prob A B = 1 / (1 + exp (- ?x))" by (simp add: win_prob_def)
  have "- 1 * ?g * (mu B - mu A) = ?x" by (simp add: algebra_simps)
  then have 2: "win_prob B A = 1 / (1 + exp ?x)" unfolding win_prob_def s by simp
  show ?thesis unfolding 1 2 by (rule logistic_complement)
qed

text \<open>
  Claim C5. For a player with positive deviation and positive volatility,
  \<open>did_not_compete\<close> sets the deviation to \<open>sqrt (phi^2 + vol^2)\<close> on the public scale,
  which is strictly more than before, and leaves \<open>mu\<close>, the rating and the volatility
  as they were.
\<close>

theorem did_not_compete_widens:
  assumes "0 < phi p" and "0 < vol p"
  shows "getRd (did_not_compete p) = phi_to_rd (sqrt ((phi p)\<^sup>2 + (vol p)\<^sup>2)) \<and>
         getRd p < getRd (did_not_compete p) \<and>
         phi p < phi (did_not_compete p) \<and>
         mu (did_not_compete p) = mu p \<and>
         getRating (did_not_compete p) = getRating p \<and>
         vol (did_not_compete p) = vol p"
proof -
  have "(phi p)\<^sup>2 < (phi p)\<^sup>2 + (vol p)\<^sup>2" using assms by simp
  then have "sqrt ((phi p)\<^sup>2) < sqrt ((phi p)\<^sup>2 + (vol p)\<^sup>2)"
    by (simp only: real_sqrt_less_iff)
  then have lt: "phi p < sqrt ((phi p)\<^sup>2 + (vol p)\<^sup>2)" using assms by simp
  then have "phi p * SCALE < sqrt ((phi p)\<^sup>2 + (vol p)\<^sup>2) * SCALE"
    using SCALE_pos by simp
  then show ?thesis using lt
    by (simp add: did_not_compete_def Player_preRatingRD_def getRd_def getRating_def phi_to_rd_def)
qed

theorem did_not_compete_widens_witness:
  "0 < phi (Player_init 1500 350 (6 / 100)) \<and> 0 < vol (Player_init 1500 350 (6 / 100)) \<and>
   getRd (Player_init 1500 350 (6 / 100))
     < getRd (did_not_compete (Player_init 1500 350 (6 / 100))) \<and>
   mu (did_not_compete (Player_init 1500 350 (6 / 100))) = 0 \<and>
   vol (did_not_compete (Player_init 1500 350 (6 / 100))) = 6 / 100"
proof -
  have h1: "0 < phi (Player_init 1500 350 (6 / 100))"
    by (simp add: Player_init_def rd_to_phi_def SCALE_def)
  have h2: "0 < vol (Player_init 1500 350 (6 / 100))"
    by (simp add: Player_init_def)
  show ?thesis
    using h1 h2 did_not_compete_widens [OF h1 h2]
    by (simp add: Player_init_def rating_to_mu_def)
qed

section \<open>The update\<close>



text \<open>
  Claim C6. When the games of a period are reordered (the same triples, the three lists
  permuted alike), \<open>update_player\<close> ends the same way and leaves the same rating,
  deviation and volatility: the lists enter only through two sums.
\<close>

theorem update_player_order_independent:
  assumes "mset games' = mset games"
  shows "update_player p (ratings_of games') (RDs_of games') (outcomes_of games') =
         update_player p (ratings_of games) (RDs_of games) (outcomes_of games)"
proof -
  have v: "(\<Sum>(r, d, s)\<leftarrow>games'. v_term q (rating_to_mu r) (rd_to_phi d)) =
           (\<Sum>(r, d, s)\<leftarrow>games. v_term q (rating_to_mu r) (rd_to_phi d))" for q
    by (rule sum_list_games_mset [OF assms])
  have s: "(\<Sum>(r, d, s)\<leftarrow>games'. score_term q (rating_to_mu r) (rd_to_phi d) s) =
           (\<Sum>(r, d, s)\<leftarrow>games. score_term q (rating_to_mu r) (rd_to_phi d) s)" for q
    by (rule sum_list_games_mset [OF assms])
  have 1: "Player_v p (map rating_to_mu (ratings_of games')) (map rd_to_phi (RDs_of games')) =
           Player_v p (map rating_to_mu (ratings_of games)) (map rd_to_phi (RDs_of games))"
    unfolding Player_v_games v ..
  have 2: "score_loop q (map rating_to_mu (ratings_of games')) (map rd_to_phi (RDs_of games'))
             (outcomes_of games') [0..<length (map rating_to_mu (ratings_of games'))] 0 =
           score_loop q (map rating_to_mu (ratings_of games)) (map rd_to_phi (RDs_of games))
             (outcomes_of games) [0..<length (map rating_to_mu (ratings_of games))] 0" for q
    unfolding score_loop_games s ..
  have 3: "Player_newVol p (map rating_to_mu (ratings_of games')) (map rd_to_phi (RDs_of games'))
             (outcomes_of games') w =
           Player_newVol p (map rating_to_mu (ratings_of games)) (map rd_to_phi (RDs_of games))
             (outcomes_of games) w" for w
    unfolding Player_newVol_def Player_delta_def 2 ..
  show ?thesis
    unfolding update_player_def Let_def 1 2 3 ..
qed

theorem update_player_order_independent_witness:
  "mset [(1700, 300, 0), (1400, 30, 1), (1550, 100, 0)]
     = mset [(1400, 30, 1), (1550, 100, 0), (1700, 300, 0 :: real) :: game] \<and>
   update_player (Player_init 1500 200 (6 / 100)) [1700, 1400, 1550] [300, 30, 100] [0, 1, 0] =
   update_player (Player_init 1500 200 (6 / 100)) [1400, 1550, 1700] [30, 100, 300] [1, 0, 0]"
proof -
  have h: "mset [(1700, 300, 0), (1400, 30, 1), (1550, 100, 0)]
     = mset [(1400, 30, 1), (1550, 100, 0), (1700, 300, 0 :: real) :: game]"
    by simp
  show ?thesis
    using h update_player_order_independent [OF h, of "Player_init 1500 200 (6 / 100)"]
    by (simp add: ratings_of_def RDs_of_def outcomes_of_def)
qed

section \<open>Erroneous input\<close>




section \<open>The loops of the solver have no bound\<close>




section \<open>The squared term of \<open>_f\<close>\<close>

text \<open>
  Claim C1 says that \<open>f\<close> has the squared deviation \<open>phi^2\<close> of the player in its first
  term. \<open>_f\<close> has \<open>self.mu**2\<close> there. For the player of rating 1500 (\<open>mu = 0\<close>),
  deviation 173.7178 (\<open>phi = 1\<close>) and volatility 1, at \<open>x = 0\<close>, \<open>delta = 2\<close>, \<open>v = 2\<close>,
  \<open>a = 0\<close> (the call that \<open>update_player([1500, 1500], [0, 0], [1, 1])\<close> makes), \<open>_f\<close>
  returns \<open>1/18\<close> and the \<open>f\<close> of the claim is \<open>0\<close>.
\<close>

theorem Player_f_squares_mu:
  "Player_f (Player_init 1500 (1737178 / 10000) 1) 0 2 2 0 = Inr (1 / 18) \<and>
   f_canonical (phi (Player_init 1500 (1737178 / 10000) 1)) Player_tau 2 2 0 0 = 0"
  unfolding Player_init_unit
  by (simp add: Player_f_value f_canonical_def Player_tau_def)

end
